theory Spec2Isabelle
  imports Complex_Main "HOL-Library.Multiset"
begin

section \<open>Coreference components of \<open>spacy/pipeline/coref.py\<close>\<close>

text \<open>
  The two pipeline components of \<open>coref.py\<close>, \<open>CoreferenceResolver\<close> and
  \<open>SpanPredictor\<close>, are embedded as functions on explicit values. Exceptions are values of
  \<open>py_error\<close>; a method that can raise returns \<open>py_error + 'a\<close>.
\<close>

datatype py_error = IndexError | ValueError | AssertionError | KeyError

subsection \<open>Array values\<close>

text \<open>
  The arrays of \<open>get_loss\<close> are float32 arrays. A finite entry is the real number it stands
  for; the infinities and NaN are kept apart. An arithmetic operation on finite entries
  rounds the exact result to the nearest float32 value, ties to even, and gives an infinity
  when the rounded result is beyond the largest float32 value. Signed zeros are not told
  apart.
\<close>

datatype xfloat = Fin real | PosInf | NegInf | NaN

text \<open>
  Rounding to float32: 24 significant bits, exponents from \<open>-126\<close> up, subnormal values
  below. \<open>rhe\<close> rounds a real number to the nearest integer, a tie to the even one.
\<close>

definition pow2 :: "int \<Rightarrow> real" where
  "pow2 k = (if 0 \<le> k then 2 ^ nat k else 1 / 2 ^ nat (- k))"

definition rhe :: "real \<Rightarrow> int" where
  "rhe q =
     (let f = \<lfloor>q\<rfloor>; d = q - of_int f
      in if d < 1 / 2 then f else if 1 / 2 < d then f + 1 else if even f then f else f + 1)"

definition expo :: "real \<Rightarrow> int" where
  "expo x = max \<lfloor>log 2 \<bar>x\<bar>\<rfloor> (- 126)"

definition ulp :: "real \<Rightarrow> real" where
  "ulp x = pow2 (expo x - 23)"

definition round32 :: "real \<Rightarrow> real" where
  "round32 x = (if x = 0 then 0 else of_int (rhe (x / ulp x)) * ulp x)"

definition to_float32 :: "real \<Rightarrow> xfloat" where
  "to_float32 x =
     (let r = round32 x
      in if 2 ^ 128 \<le> r then PosInf else if r \<le> - (2 ^ 128) then NegInf else Fin r)"

fun xneg :: "xfloat \<Rightarrow> xfloat" where
  "xneg (Fin a) = Fin (- a)"
| "xneg PosInf = NegInf"
| "xneg NegInf = PosInf"
| "xneg NaN = NaN"

fun f32_add :: "xfloat \<Rightarrow> xfloat \<Rightarrow> xfloat" where
  "f32_add NaN y = NaN"
| "f32_add x NaN = NaN"
| "f32_add (Fin a) (Fin b) = to_float32 (a + b)"
| "f32_add PosInf NegInf = NaN"
| "f32_add NegInf PosInf = NaN"
| "f32_add PosInf y = PosInf"
| "f32_add x PosInf = PosInf"
| "f32_add NegInf y = NegInf"
| "f32_add x NegInf = NegInf"

definition f32_sub :: "xfloat \<Rightarrow> xfloat \<Rightarrow> xfloat" where
  "f32_sub x y = f32_add x (xneg y)"

text \<open>\<open>x ** 2\<close>\<close>

fun f32_sq :: "xfloat \<Rightarrow> xfloat" where
  "f32_sq (Fin a) = to_float32 (a * a)"
| "f32_sq PosInf = PosInf"
| "f32_sq NegInf = PosInf"
| "f32_sq NaN = NaN"

fun f32_div :: "xfloat \<Rightarrow> xfloat \<Rightarrow> xfloat" where
  "f32_div NaN y = NaN"
| "f32_div x NaN = NaN"
| "f32_div (Fin a) (Fin b) =
     (if b \<noteq> 0 then to_float32 (a / b)
      else if 0 < a then PosInf else if a < 0 then NegInf else NaN)"
| "f32_div (Fin a) y = Fin 0"
| "f32_div x (Fin b) = (if 0 \<le> b then x else xneg x)"
| "f32_div x y = NaN"

text \<open>The maximum is exact, and NaN if an argument is.\<close>

fun xmax :: "xfloat \<Rightarrow> xfloat \<Rightarrow> xfloat" where
  "xmax NaN y = NaN"
| "xmax x NaN = NaN"
| "xmax PosInf y = PosInf"
| "xmax x PosInf = PosInf"
| "xmax NegInf y = y"
| "xmax x NegInf = x"
| "xmax (Fin a) (Fin b) = Fin (max a b)"

text \<open>
  \<open>xp.exp\<close>, \<open>xp.log\<close> and the reduction \<open>ndarray.sum\<close> are numpy's. What they return on
  float32 depends on the implementation: how close \<open>exp\<close> and \<open>log\<close> are to the exact value,
  and in which order \<open>sum\<close> adds the entries. They are parameters of the model, collected in
  a record: \<open>np_exp\<close> and \<open>np_log\<close> on a finite argument, \<open>np_sum\<close> on the list of the entries.
\<close>

record numpy =
  np_exp :: "real \<Rightarrow> xfloat"
  np_log :: "real \<Rightarrow> xfloat"
  np_sum :: "xfloat list \<Rightarrow> xfloat"

fun xexp :: "numpy \<Rightarrow> xfloat \<Rightarrow> xfloat" where
  "xexp np (Fin a) = np_exp np a"
| "xexp np PosInf = PosInf"
| "xexp np NegInf = Fin 0"
| "xexp np NaN = NaN"

fun xlog :: "numpy \<Rightarrow> xfloat \<Rightarrow> xfloat" where
  "xlog np (Fin a) = np_log np a"
| "xlog np PosInf = PosInf"
| "xlog np NegInf = NaN"
| "xlog np NaN = NaN"

text \<open>
  The loss that \<open>get_loss\<close> returns is a Python float, and so are the totals that \<open>update\<close>
  adds it to. Sums of Python floats are read as exact:
\<close>

fun xadd :: "xfloat \<Rightarrow> xfloat \<Rightarrow> xfloat" where
  "xadd NaN y = NaN"
| "xadd x NaN = NaN"
| "xadd (Fin a) (Fin b) = Fin (a + b)"
| "xadd PosInf NegInf = NaN"
| "xadd NegInf PosInf = NaN"
| "xadd PosInf y = PosInf"
| "xadd x PosInf = PosInf"
| "xadd NegInf y = NegInf"
| "xadd x NegInf = NegInf"

text \<open>Truth value of an array entry, as \<open>ndarray.any\<close> reads it: everything but zero.\<close>

definition truthy :: "xfloat \<Rightarrow> bool" where
  "truthy x = (x \<noteq> Fin 0)"

text \<open>\<open>ops.asarray2f\<close> on booleans: \<open>True\<close> is 1.0 and \<open>False\<close> is 0.0.\<close>

definition of_flag :: "bool \<Rightarrow> xfloat" where
  "of_flag b = (if b then Fin 1 else Fin 0)"

text \<open>
  A two-dimensional array is the list of its rows. An array with no rows has no column
  count in this representation.

  Elementwise binary operations follow numpy's broadcasting: along one axis the two
  lengths agree, or one of them is 1 and is repeated; anything else is a \<open>ValueError\<close>.
\<close>

definition bcast :: "('a \<Rightarrow> 'b \<Rightarrow> 'c) \<Rightarrow> 'a list \<Rightarrow> 'b list \<Rightarrow> 'c list option" where
  "bcast f xs ys =
     (if length xs = length ys then Some (map2 f xs ys)
      else if length xs = 1 then Some (map (f (hd xs)) ys)
      else if length ys = 1 then Some (map (\<lambda>x. f x (hd ys)) xs)
      else None)"

definition elementwise ::
  "(xfloat \<Rightarrow> xfloat \<Rightarrow> xfloat) \<Rightarrow> xfloat list list \<Rightarrow> xfloat list list
     \<Rightarrow> py_error + xfloat list list" where
  "elementwise f A B =
     (case bcast (bcast f) A B of
        None \<Rightarrow> Inl ValueError
      | Some rows \<Rightarrow> (case those rows of None \<Rightarrow> Inl ValueError | Some C \<Rightarrow> Inr C))"

subsection \<open>\<open>ops.softmax(x, axis=1)\<close>\<close>

text \<open>
  The softmax of thinc's \<open>Ops\<close>, row by row: subtract the row maximum, exponentiate,
  divide by the row sum. The maximum of a row without entries is a \<open>ValueError\<close>; an
  array without rows is taken to have columns, so that the reduction returns.
\<close>

definition row_max :: "xfloat list \<Rightarrow> xfloat" where
  "row_max r = foldl xmax (hd r) (tl r)"

definition softmax_row :: "numpy \<Rightarrow> xfloat list \<Rightarrow> xfloat list" where
  "softmax_row np r =
     (let maxes = row_max r;
          shifted = map (\<lambda>x. f32_sub x maxes) r;
          new_x = map (xexp np) shifted;
          total = np_sum np new_x
      in map (\<lambda>e. f32_div e total) new_x)"

definition softmax :: "numpy \<Rightarrow> xfloat list list \<Rightarrow> py_error + xfloat list list" where
  "softmax np X = (if [] \<in> set X then Inl ValueError else Inr (map (softmax_row np) X))"

subsection \<open>Gold agreement matrix (\<open>CoreferenceResolver.get_loss\<close>, lines 304 to 314)\<close>

text \<open>
  \<open>xp.take_along_axis(gscores, mention_idx, axis=1)\<close>: row \<open>i\<close> of the result reads row
  \<open>i\<close> of \<open>gscores\<close> at the indices of row \<open>i\<close> of \<open>mention_idx\<close>. A negative index counts
  from the end of the row, an index outside the row is an \<open>IndexError\<close>, and the two row
  counts agree or one of them is 1.
\<close>

definition take_index :: "'a list \<Rightarrow> int \<Rightarrow> 'a option" where
  "take_index row i =
     (let n = int (length row)
      in if 0 \<le> i \<and> i < n then Some (row ! nat i)
         else if - n \<le> i \<and> i < 0 then Some (row ! nat (n + i))
         else None)"

definition take_row :: "'a list \<Rightarrow> int list \<Rightarrow> 'a list option" where
  "take_row row idxs = those (map (take_index row) idxs)"

definition take_along_axis :: "'a list list \<Rightarrow> int list list \<Rightarrow> py_error + 'a list list" where
  "take_along_axis arr indices =
     (case bcast take_row arr indices of
        None \<Rightarrow> Inl IndexError
      | Some rows \<Rightarrow> (case those rows of None \<Rightarrow> Inl IndexError | Some C \<Rightarrow> Inr C))"

text \<open>
  The placeholder column: \<open>~top_gscores.any(axis=1)\<close>, put in front of the gathered
  columns by \<open>xp.concatenate\<close>.
\<close>

definition add_placeholder :: "xfloat list list \<Rightarrow> xfloat list list" where
  "add_placeholder tg =
     map (\<lambda>row. of_flag (\<not> (\<exists>x \<in> set row. truthy x)) # row) tg"

text \<open>
  \<open>gscores\<close> is the value of \<open>create_gold_scores\<close>, a list of rows of booleans; the
  function itself is not part of \<open>coref.py\<close>.
\<close>

definition gold_agreement :: "bool list list \<Rightarrow> int list list \<Rightarrow> py_error + xfloat list list" where
  "gold_agreement gscores mention_idx =
     (case take_along_axis (map (map of_flag) gscores) mention_idx of
        Inl e \<Rightarrow> Inl e
      | Inr top_gscores \<Rightarrow> Inr (add_placeholder top_gscores))"

subsection \<open>Documents and examples\<close>

text \<open>
  A \<open>Doc\<close> is read through its number of tokens \<open>len(doc)\<close> and its span groups
  \<open>doc.spans\<close>, a dictionary in insertion order. A span is read through its token
  offsets \<open>mention.start\<close> and \<open>mention.end\<close>.
\<close>

record span =
  span_start :: int
  span_end :: int

record doc =
  n_tokens :: nat
  spans :: "(string \<times> span list) list"

record example =
  predicted :: doc
  reference :: doc

subsection \<open>\<open>CoreferenceResolver.get_loss\<close>\<close>

text \<open>
  \<open>gold reference n\<close> stands for
  \<open>create_gold_scores(create_head_span_idxs(ops, n), get_clusters_from_doc(reference))\<close>,
  three functions of \<open>coref_util\<close>. The score matrix is a float32 array; nothing in
  \<open>get_loss\<close> looks at whether its entries are finite.
\<close>

definition coref_get_loss ::
  "numpy \<Rightarrow> (doc \<Rightarrow> nat \<Rightarrow> bool list list) \<Rightarrow> example list \<Rightarrow> xfloat list list \<Rightarrow> int list list
     \<Rightarrow> py_error + (xfloat \<times> xfloat list list)" where
  "coref_get_loss np gold examples score_matrix mention_idx =
     (case examples of
        [] \<Rightarrow> Inl IndexError
      | example # _ \<Rightarrow>
          (let cscores = score_matrix;
               gscores = gold (reference example) (n_tokens (predicted example))
           in case gold_agreement gscores mention_idx of
                Inl e \<Rightarrow> Inl e
              | Inr top_gscores \<Rightarrow>
                  (case elementwise f32_add cscores (map (map (xlog np)) top_gscores) of
                     Inl e \<Rightarrow> Inl e
                   | Inr masked \<Rightarrow>
                       (case softmax np masked of
                          Inl e \<Rightarrow> Inl e
                        | Inr log_marg \<Rightarrow>
                            (case softmax np cscores of
                               Inl e \<Rightarrow> Inl e
                             | Inr log_norm \<Rightarrow>
                                 (case elementwise f32_sub log_norm log_marg of
                                    Inl e \<Rightarrow> Inl e
                                  | Inr grad \<Rightarrow>
                                      Inr (np_sum np (map f32_sq (concat grad)), grad)))))))"

subsection \<open>\<open>CoreferenceResolver.set_annotations\<close> and \<open>SpanPredictor.set_annotations\<close>\<close>

text \<open>Python's \<open>str\<close> of a non-negative integer.\<close>

fun str_nat :: "nat \<Rightarrow> string" where
  "str_nat n =
     (if n < 10 then [''0123456789'' ! n]
      else str_nat (n div 10) @ [''0123456789'' ! (n mod 10)])"

declare str_nat.simps [simp del]

text \<open>The key of cluster \<open>ii\<close>: \<open>prefix + "_" + str(ii)\<close>.\<close>

definition cluster_key :: "string \<Rightarrow> nat \<Rightarrow> string" where
  "cluster_key prefix ii = prefix @ ''_'' @ str_nat ii"

text \<open>\<open>d[key] = value\<close> on a dictionary in insertion order.\<close>

fun dict_set :: "'k \<Rightarrow> 'v \<Rightarrow> ('k \<times> 'v) list \<Rightarrow> ('k \<times> 'v) list" where
  "dict_set k v [] = [(k, v)]"
| "dict_set k v ((k', v') # kvs) =
     (if k = k' then (k, v) # kvs else (k', v') # dict_set k v kvs)"

text \<open>
  Both methods change the documents in place and can stop in the middle, so they return the
  documents as they are when the call ends, and the exception if one was raised.
  \<open>slice d a b\<close> stands for \<open>d[a:b]\<close>, \<open>Doc.__getitem__\<close>.

  The loop over \<open>enumerate(clusters)\<close> of \<open>CoreferenceResolver.set_annotations\<close>, from index
  \<open>ii\<close> on:
\<close>

fun coref_annotate_doc ::
  "(doc \<Rightarrow> int \<Rightarrow> int \<Rightarrow> span) \<Rightarrow> string \<Rightarrow> nat \<Rightarrow> doc \<Rightarrow> (int \<times> int) list list
     \<Rightarrow> doc \<times> py_error option" where
  "coref_annotate_doc slice prefix ii d [] = (d, None)"
| "coref_annotate_doc slice prefix ii d (cluster # clusters) =
     (if cluster_key prefix ii \<in> fst ` set (spans d) then (d, Some ValueError)
      else coref_annotate_doc slice prefix (ii + 1)
             (d\<lparr>spans := dict_set (cluster_key prefix ii)
                             (map (\<lambda>mention. slice d (fst mention) (snd mention)) cluster)
                             (spans d)\<rparr>)
             clusters)"

text \<open>The loop over \<open>zip(docs, clusters_by_doc)\<close>.\<close>

fun coref_annotate_docs ::
  "(doc \<Rightarrow> int \<Rightarrow> int \<Rightarrow> span) \<Rightarrow> string \<Rightarrow> doc list \<Rightarrow> (int \<times> int) list list list
     \<Rightarrow> doc list \<times> py_error option" where
  "coref_annotate_docs slice prefix (d # ds) (clusters # cs) =
     (case coref_annotate_doc slice prefix 0 d clusters of
        (d', Some e) \<Rightarrow> (d' # ds, Some e)
      | (d', None) \<Rightarrow>
          (case coref_annotate_docs slice prefix ds cs of (ds', r) \<Rightarrow> (d' # ds', r)))"
| "coref_annotate_docs slice prefix ds cs = (ds, None)"

definition coref_set_annotations ::
  "(doc \<Rightarrow> int \<Rightarrow> int \<Rightarrow> span) \<Rightarrow> string \<Rightarrow> doc list \<Rightarrow> (int \<times> int) list list list
     \<Rightarrow> doc list \<times> py_error option" where
  "coref_set_annotations slice span_cluster_prefix docs clusters_by_doc =
     (if length docs \<noteq> length clusters_by_doc then (docs, Some ValueError)
      else coref_annotate_docs slice span_cluster_prefix docs clusters_by_doc)"

text \<open>\<open>SpanPredictor.set_annotations\<close>: the same two loops, without a test.\<close>

fun span_annotate_doc ::
  "(doc \<Rightarrow> int \<Rightarrow> int \<Rightarrow> span) \<Rightarrow> string \<Rightarrow> nat \<Rightarrow> doc \<Rightarrow> (int \<times> int) list list \<Rightarrow> doc" where
  "span_annotate_doc slice prefix ii d [] = d"
| "span_annotate_doc slice prefix ii d (cluster # clusters) =
     span_annotate_doc slice prefix (ii + 1)
       (d\<lparr>spans := dict_set (cluster_key prefix ii)
                       (map (\<lambda>mm. slice d (fst mm) (snd mm)) cluster) (spans d)\<rparr>)
       clusters"

fun span_set_annotations ::
  "(doc \<Rightarrow> int \<Rightarrow> int \<Rightarrow> span) \<Rightarrow> string \<Rightarrow> doc list \<Rightarrow> (int \<times> int) list list list
     \<Rightarrow> doc list \<times> py_error option" where
  "span_set_annotations slice output_prefix (d # ds) (clusters # cs) =
     (case span_set_annotations slice output_prefix ds cs of
        (ds', r) \<Rightarrow> (span_annotate_doc slice output_prefix 0 d clusters # ds', r))"
| "span_set_annotations slice output_prefix ds cs = (ds, None)"

subsection \<open>\<open>SpanPredictor.predict\<close>\<close>

text \<open>
  The score tensor of the span predictor has the axes mention, token and start/end. It is
  the list of its rows, one per mention, of pairs (start score, end score), together with
  the length of the token axis, \<open>shape[1]\<close>, which an array keeps when it has no rows.
\<close>

record span_tensor =
  n_positions :: nat
  entries :: "(xfloat \<times> xfloat) list list"

definition tensor_size :: "span_tensor \<Rightarrow> nat" where
  "tensor_size t = length (entries t) * n_positions t * 2"

definition start_scores :: "span_tensor \<Rightarrow> xfloat list list" where
  "start_scores t = map (map fst) (entries t)"

definition end_scores :: "span_tensor \<Rightarrow> xfloat list list" where
  "end_scores t = map (map snd) (entries t)"

text \<open>
  \<open>argmax(axis=1)\<close>: in each row the first position that holds the largest score, where NaN
  counts as larger than every number. \<open>xless x y\<close> says that \<open>y\<close> is larger than \<open>x\<close> in this
  sense. A row without entries has no argmax, which is a \<open>ValueError\<close>.
\<close>

fun xless :: "xfloat \<Rightarrow> xfloat \<Rightarrow> bool" where
  "xless NaN y = False"
| "xless x NaN = True"
| "xless PosInf y = False"
| "xless x PosInf = True"
| "xless x NegInf = False"
| "xless NegInf y = True"
| "xless (Fin a) (Fin b) = (a < b)"

fun argmax_from :: "xfloat list \<Rightarrow> nat \<Rightarrow> nat \<Rightarrow> xfloat \<Rightarrow> nat" where
  "argmax_from [] i best_i best = best_i"
| "argmax_from (x # xs) i best_i best =
     (if xless best x then argmax_from xs (i + 1) i x else argmax_from xs (i + 1) best_i best)"

fun argmax_row :: "xfloat list \<Rightarrow> nat option" where
  "argmax_row [] = None"
| "argmax_row (x # xs) = Some (argmax_from xs 1 0 x)"

definition argmax_rows :: "xfloat list list \<Rightarrow> py_error + nat list" where
  "argmax_rows X = (case those (map argmax_row X) of None \<Rightarrow> Inl ValueError | Some js \<Rightarrow> Inr js)"

text \<open>
  The inner loop over the mentions of one cluster, from position \<open>cidx\<close> on: the new
  cluster and the position after it. Reading \<open>starts[cidx]\<close> past the end is an
  \<open>IndexError\<close>.
\<close>

fun rebuild_cluster ::
  "nat list \<Rightarrow> nat list \<Rightarrow> nat \<Rightarrow> 'm list \<Rightarrow> py_error + ((nat \<times> nat) list \<times> nat)" where
  "rebuild_cluster starts ends cidx [] = Inr ([], cidx)"
| "rebuild_cluster starts ends cidx (mention # cluster) =
     (if cidx < length starts \<and> cidx < length ends then
        (case rebuild_cluster starts ends (cidx + 1) cluster of
           Inl e \<Rightarrow> Inl e
         | Inr (ncluster, cidx') \<Rightarrow> Inr ((starts ! cidx, ends ! cidx) # ncluster, cidx'))
      else Inl IndexError)"

text \<open>The outer loop over the clusters.\<close>

fun rebuild_clusters ::
  "nat list \<Rightarrow> nat list \<Rightarrow> nat \<Rightarrow> 'm list list \<Rightarrow> py_error + (nat \<times> nat) list list" where
  "rebuild_clusters starts ends cidx [] = Inr []"
| "rebuild_clusters starts ends cidx (cluster # clusters) =
     (case rebuild_cluster starts ends cidx cluster of
        Inl e \<Rightarrow> Inl e
      | Inr (ncluster, cidx') \<Rightarrow>
          (case rebuild_clusters starts ends cidx' clusters of
             Inl e \<Rightarrow> Inl e
           | Inr out_clusters \<Rightarrow> Inr (ncluster # out_clusters)))"

text \<open>
  The body of the loop over the documents. \<open>model_predict d\<close> stands for
  \<open>self.model.predict([doc])\<close> and \<open>doc2clusters d prefix\<close> for the function of that name
  in \<open>coref_util\<close>.
\<close>

definition span_predict_doc ::
  "(doc \<Rightarrow> span_tensor) \<Rightarrow> (doc \<Rightarrow> string \<Rightarrow> 'm list list) \<Rightarrow> string \<Rightarrow> doc
     \<Rightarrow> py_error + (nat \<times> nat) list list" where
  "span_predict_doc model_predict doc2clusters input_prefix d =
     (let span_scores = model_predict d
      in if tensor_size span_scores \<noteq> 0 then
           (case argmax_rows (start_scores span_scores) of
              Inl e \<Rightarrow> Inl e
            | Inr starts \<Rightarrow>
                (case argmax_rows (end_scores span_scores) of
                   Inl e \<Rightarrow> Inl e
                 | Inr ends \<Rightarrow>
                     rebuild_clusters starts ends 0 (doc2clusters d input_prefix)))
         else Inr [])"

fun span_predict ::
  "(doc \<Rightarrow> span_tensor) \<Rightarrow> (doc \<Rightarrow> string \<Rightarrow> 'm list list) \<Rightarrow> string \<Rightarrow> doc list
     \<Rightarrow> py_error + (nat \<times> nat) list list list" where
  "span_predict model_predict doc2clusters input_prefix [] = Inr []"
| "span_predict model_predict doc2clusters input_prefix (d # docs) =
     (case span_predict_doc model_predict doc2clusters input_prefix d of
        Inl e \<Rightarrow> Inl e
      | Inr out_clusters \<Rightarrow>
          (case span_predict model_predict doc2clusters input_prefix docs of
             Inl e \<Rightarrow> Inl e
           | Inr out \<Rightarrow> Inr (out_clusters # out)))"

subsection \<open>\<open>SpanPredictor.get_loss\<close>\<close>

text \<open>\<open>key.startswith(prefix)\<close>\<close>

definition startswith :: "string \<Rightarrow> string \<Rightarrow> bool" where
  "startswith key prefix = (take (length prefix) key = prefix)"

text \<open>The gold starts and ends: the spans of every group whose key has the output prefix.\<close>

definition gold_mentions :: "string \<Rightarrow> doc \<Rightarrow> span list" where
  "gold_mentions output_prefix d =
     concat (map (\<lambda>(key, sg). if startswith key output_prefix then sg else []) (spans d))"

text \<open>
  \<open>xp.asarray\<close> of a list of Python integers is an integer array, except that the array of
  the empty list is an empty float64 array.
\<close>

datatype label_array = IntLabels "int list" | EmptyFloat64

definition asarray :: "int list \<Rightarrow> label_array" where
  "asarray xs = (if xs = [] then EmptyFloat64 else IntLabels xs)"

text \<open>\<open>xp.stack((a, b), axis=2)\<close>: the two arrays have the same shape.\<close>

definition stack2 ::
  "xfloat list list \<Rightarrow> xfloat list list \<Rightarrow> py_error + (xfloat \<times> xfloat) list list" where
  "stack2 A B = (if map length A = map length B then Inr (map2 zip A B) else Inl ValueError)"

definition tensor_entries :: "(xfloat \<times> xfloat) list list \<Rightarrow> xfloat list" where
  "tensor_entries T = concat (map (\<lambda>p. [fst p, snd p]) (concat T))"

text \<open>
  \<open>to_categorical\<close> is thinc's; it is a parameter here. It takes the label array and the
  number of classes.
\<close>

definition span_get_loss ::
  "numpy \<Rightarrow> (label_array \<Rightarrow> nat \<Rightarrow> py_error + xfloat list list) \<Rightarrow> string \<Rightarrow> example list
     \<Rightarrow> span_tensor \<Rightarrow> py_error + (xfloat \<times> (xfloat \<times> xfloat) list list)" where
  "span_get_loss np to_categorical output_prefix examples span_scores =
     (case examples of
        [eg] \<Rightarrow>
          (let starts = asarray (map span_start (gold_mentions output_prefix (reference eg)));
               ends = asarray (map span_end (gold_mentions output_prefix (reference eg)));
               n_classes = n_positions span_scores
           in case softmax np (start_scores span_scores) of
                Inl e \<Rightarrow> Inl e
              | Inr start_probs \<Rightarrow>
             (case softmax np (end_scores span_scores) of
                Inl e \<Rightarrow> Inl e
              | Inr end_probs \<Rightarrow>
             (case to_categorical starts n_classes of
                Inl e \<Rightarrow> Inl e
              | Inr start_targets \<Rightarrow>
             (case to_categorical ends n_classes of
                Inl e \<Rightarrow> Inl e
              | Inr end_targets \<Rightarrow>
             (case elementwise f32_sub start_probs start_targets of
                Inl e \<Rightarrow> Inl e
              | Inr start_grads \<Rightarrow>
             (case elementwise f32_sub end_probs end_targets of
                Inl e \<Rightarrow> Inl e
              | Inr end_grads \<Rightarrow>
             (case stack2 start_grads end_grads of
                Inl e \<Rightarrow> Inl e
              | Inr grads \<Rightarrow> Inr (np_sum np (map f32_sq (tensor_entries grads)), grads))))))))
      | _ \<Rightarrow> Inl AssertionError)"

subsection \<open>\<open>CoreferenceResolver.update\<close> and \<open>SpanPredictor.update\<close>\<close>

text \<open>
  What an update does to the model is recorded as the list of the calls made on it, in
  order. The losses are a dictionary from component names to floats. \<open>validate_examples\<close>
  checks that the batch is a list of \<open>Example\<close> objects, which the type of \<open>examples\<close> says.
\<close>

datatype 'g event = SetDropout real | BeginUpdate doc | Backprop 'g | FinishUpdate

definition setdefault :: "(string \<rightharpoonup> xfloat) \<Rightarrow> string \<Rightarrow> xfloat \<Rightarrow> (string \<rightharpoonup> xfloat)" where
  "setdefault losses name v = (case losses name of None \<Rightarrow> losses(name \<mapsto> v) | Some _ \<Rightarrow> losses)"

text \<open>
  The loop over the examples of \<open>CoreferenceResolver.update\<close>. \<open>forward d\<close> stands for the
  predictions \<open>(score_matrix, mention_idx)\<close> of \<open>self.model.begin_update([d])\<close>.
\<close>

fun coref_update_loop ::
  "numpy \<Rightarrow> (doc \<Rightarrow> nat \<Rightarrow> bool list list) \<Rightarrow> (doc \<Rightarrow> xfloat list list \<times> int list list)
     \<Rightarrow> xfloat \<Rightarrow> (xfloat list list \<times> int list list) event list \<Rightarrow> example list
     \<Rightarrow> py_error + (xfloat \<times> (xfloat list list \<times> int list list) event list)" where
  "coref_update_loop np gold forward total_loss calls [] = Inr (total_loss, calls)"
| "coref_update_loop np gold forward total_loss calls (eg # egs) =
     (case forward (predicted eg) of
        (score_matrix, mention_idx) \<Rightarrow>
          (case coref_get_loss np gold [eg] score_matrix mention_idx of
             Inl e \<Rightarrow> Inl e
           | Inr (loss, d_scores) \<Rightarrow>
               coref_update_loop np gold forward (xadd total_loss loss)
                 (calls @ [BeginUpdate (predicted eg), Backprop (d_scores, mention_idx)]) egs))"

definition coref_update ::
  "numpy \<Rightarrow> (doc \<Rightarrow> nat \<Rightarrow> bool list list) \<Rightarrow> (doc \<Rightarrow> xfloat list list \<times> int list list) \<Rightarrow> string
     \<Rightarrow> example list \<Rightarrow> real \<Rightarrow> bool \<Rightarrow> (string \<rightharpoonup> xfloat) option
     \<Rightarrow> py_error + ((string \<rightharpoonup> xfloat) \<times> (xfloat list list \<times> int list list) event list)" where
  "coref_update np gold forward name examples drop_rate sgd losses_arg =
     (let losses = setdefault (case losses_arg of None \<Rightarrow> Map.empty | Some l \<Rightarrow> l) name (Fin 0)
      in if \<not> (\<exists>eg \<in> set examples. n_tokens (predicted eg) \<noteq> 0) then Inr (losses, [])
         else
           (case coref_update_loop np gold forward (Fin 0) [SetDropout drop_rate] examples of
              Inl e \<Rightarrow> Inl e
            | Inr (total_loss, calls) \<Rightarrow>
                (case losses name of
                   None \<Rightarrow> Inl KeyError
                 | Some v \<Rightarrow>
                     Inr (losses(name \<mapsto> xadd v total_loss),
                          calls @ (if sgd then [FinishUpdate] else [])))))"

text \<open>
  \<open>SpanPredictor.update\<close> runs the model on the reference document; \<open>forward d\<close> stands for
  the scores of \<open>self.model.begin_update([d])\<close>.
\<close>

fun span_update_loop ::
  "numpy \<Rightarrow> (label_array \<Rightarrow> nat \<Rightarrow> py_error + xfloat list list) \<Rightarrow> string \<Rightarrow> (doc \<Rightarrow> span_tensor)
     \<Rightarrow> xfloat \<Rightarrow> (xfloat \<times> xfloat) list list event list \<Rightarrow> example list
     \<Rightarrow> py_error + (xfloat \<times> (xfloat \<times> xfloat) list list event list)" where
  "span_update_loop np to_categorical output_prefix forward total_loss calls [] =
     Inr (total_loss, calls)"
| "span_update_loop np to_categorical output_prefix forward total_loss calls (eg # egs) =
     (case span_get_loss np to_categorical output_prefix [eg] (forward (reference eg)) of
        Inl e \<Rightarrow> Inl e
      | Inr (loss, d_scores) \<Rightarrow>
          span_update_loop np to_categorical output_prefix forward (xadd total_loss loss)
            (calls @ [BeginUpdate (reference eg), Backprop d_scores]) egs)"

definition span_update ::
  "numpy \<Rightarrow> (label_array \<Rightarrow> nat \<Rightarrow> py_error + xfloat list list) \<Rightarrow> string \<Rightarrow> (doc \<Rightarrow> span_tensor) \<Rightarrow> string
     \<Rightarrow> example list \<Rightarrow> real \<Rightarrow> bool \<Rightarrow> (string \<rightharpoonup> xfloat) option
     \<Rightarrow> py_error + ((string \<rightharpoonup> xfloat) \<times> (xfloat \<times> xfloat) list list event list)" where
  "span_update np to_categorical output_prefix forward name examples drop_rate sgd losses_arg =
     (let losses = setdefault (case losses_arg of None \<Rightarrow> Map.empty | Some l \<Rightarrow> l) name (Fin 0)
      in if \<not> (\<exists>eg \<in> set examples. n_tokens (reference eg) \<noteq> 0) then Inr (losses, [])
         else
           (case span_update_loop np to_categorical output_prefix forward (Fin 0) [SetDropout drop_rate]
                   examples of
              Inl e \<Rightarrow> Inl e
            | Inr (total_loss, calls) \<Rightarrow>
                (case losses name of
                   None \<Rightarrow> Inl KeyError
                 | Some v \<Rightarrow>
                     Inr (losses(name \<mapsto> xadd v total_loss),
                          calls @ (if sgd then [FinishUpdate] else [])))))"

subsection \<open>\<open>CoreferenceResolver.score\<close>\<close>

datatype metric = B_cubed | Muc | Ceafe

text \<open>
  Modelled from the spec: the class \<open>Evaluator\<close> of \<open>coref_scorer\<close> is not in \<open>coref.py\<close>.
  It keeps four running totals, the numerators and denominators of precision and recall;
  \<open>update\<close> adds one document's four counts to them; \<open>get_precision\<close>, \<open>get_recall\<close> and
  \<open>get_f1\<close> divide the totals and return 0 where a denominator is 0. F1 is the harmonic
  mean of precision and recall.
\<close>

record evaluator =
  p_num :: real
  p_den :: real
  r_num :: real
  r_den :: real

definition Evaluator :: evaluator where
  "Evaluator = \<lparr>p_num = 0, p_den = 0, r_num = 0, r_den = 0\<rparr>"

definition evaluator_update :: "evaluator \<Rightarrow> real \<times> real \<times> real \<times> real \<Rightarrow> evaluator" where
  "evaluator_update ev counts =
     (case counts of
        (pn, pd, rn, rd) \<Rightarrow>
          \<lparr>p_num = p_num ev + pn, p_den = p_den ev + pd,
           r_num = r_num ev + rn, r_den = r_den ev + rd\<rparr>)"

definition get_precision :: "evaluator \<Rightarrow> real" where
  "get_precision ev = (if p_den ev = 0 then 0 else p_num ev / p_den ev)"

definition get_recall :: "evaluator \<Rightarrow> real" where
  "get_recall ev = (if r_den ev = 0 then 0 else r_num ev / r_den ev)"

definition get_f1 :: "evaluator \<Rightarrow> real" where
  "get_f1 ev =
     (let p = get_precision ev; r = get_recall ev
      in if p + r = 0 then 0 else 2 * p * r / (p + r))"

text \<open>\<open>statistics.mean\<close>, on the list of three values that \<open>score\<close> gives it.\<close>

definition mean :: "real list \<Rightarrow> real" where
  "mean xs = sum_list xs / real (length xs)"

record score_dict =
  coref_f :: real
  coref_p :: real
  coref_r :: real

text \<open>
  \<open>counts metric ex\<close> stands for the four counts that one document adds under one metric:
  \<open>doc2clusters\<close> on the predicted and the reference document, \<open>get_cluster_info\<close>, and the
  metric function, all outside \<open>coref.py\<close>. The inner loop of \<open>score\<close> feeds one evaluator
  with every example.
\<close>

definition run_evaluator ::
  "(metric \<Rightarrow> example \<Rightarrow> real \<times> real \<times> real \<times> real) \<Rightarrow> metric \<Rightarrow> example list \<Rightarrow> evaluator" where
  "run_evaluator counts m examples =
     foldl (\<lambda>ev ex. evaluator_update ev (counts m ex)) Evaluator examples"

definition coref_score ::
  "(metric \<Rightarrow> example \<Rightarrow> real \<times> real \<times> real \<times> real) \<Rightarrow> example list \<Rightarrow> score_dict" where
  "coref_score counts examples =
     (let scores =
            map (\<lambda>m. let ev = run_evaluator counts m examples
                      in \<lparr>coref_f = get_f1 ev, coref_p = get_precision ev, coref_r = get_recall ev\<rparr>)
                [B_cubed, Muc, Ceafe]
      in \<lparr>coref_f = mean (map coref_f scores),
          coref_p = mean (map coref_p scores),
          coref_r = mean (map coref_r scores)\<rparr>)"

subsection \<open>Predicates used in the statements and proofs\<close>


fun is_fin :: "xfloat \<Rightarrow> bool" where
  "is_fin (Fin a) = True"
| "is_fin x = False"

fun fin_val :: "xfloat \<Rightarrow> real" where
  "fin_val (Fin a) = a"
| "fin_val x = 0"













text \<open>
  A numpy that meets this: correctly rounded \<open>exp\<close> and \<open>log\<close>, and the sum from left to right
  starting at 0.
\<close>

definition reference_numpy :: numpy where
  "reference_numpy =
     \<lparr>np_exp = (\<lambda>a. to_float32 (exp a)),
      np_log = (\<lambda>a. if a = 0 then NegInf else if a < 0 then NaN else to_float32 (ln a)),
      np_sum = foldl f32_add (Fin 0)\<rparr>"


text \<open>
  One-hot rows, \<open>to_categorical\<close> on an integer array of class indices. A label that is not a
  class index is an \<open>IndexError\<close>, and so is an array that is not an integer array.
\<close>

definition one_hot :: "label_array \<Rightarrow> nat \<Rightarrow> py_error + xfloat list list" where
  "one_hot labels n =
     (case labels of
        EmptyFloat64 \<Rightarrow> Inl IndexError
      | IntLabels ys \<Rightarrow>
          (if \<forall>y \<in> set ys. 0 \<le> y \<and> y < int n
           then Inr (map (\<lambda>y. map (\<lambda>j. of_flag (int j = y)) [0..<n]) ys)
           else Inl IndexError))"

subsection \<open>Inputs of the instances\<close>



subsection \<open>Corpus totals\<close>

text \<open>
  The totals of one metric over a whole corpus, written as sums over the examples: the
  micro-average divides these.
\<close>

definition corpus_totals ::
  "(metric \<Rightarrow> example \<Rightarrow> real \<times> real \<times> real \<times> real) \<Rightarrow> metric \<Rightarrow> example list \<Rightarrow> evaluator" where
  "corpus_totals counts m examples =
     \<lparr>p_num = (\<Sum>ex\<leftarrow>examples. fst (counts m ex)),
      p_den = (\<Sum>ex\<leftarrow>examples. fst (snd (counts m ex))),
      r_num = (\<Sum>ex\<leftarrow>examples. fst (snd (snd (counts m ex)))),
      r_den = (\<Sum>ex\<leftarrow>examples. snd (snd (snd (counts m ex))))\<rparr>"

section \<open>Properties\<close>

subsection \<open>Rounding to float32\<close>

lemma pow2_powr: "pow2 k = 2 powr (of_int k)"
  by (simp add: pow2_def powr_int)

lemma pow2_pos: "0 < pow2 k"
  by (simp add: pow2_powr)

lemma pow2_add: "pow2 (a + b) = pow2 a * pow2 b"
  by (simp add: pow2_powr powr_add)





lemma rhe_of_int: "rhe (of_int n) = n"
  by (simp add: rhe_def Let_def)









lemma pow2_zero: "pow2 0 = 1"
  by (simp add: pow2_def)

lemma pow2_inverse: "pow2 (- k) = 1 / pow2 k"
proof -
  have "pow2 (k + (- k)) = pow2 k * pow2 (- k)" by (rule pow2_add)
  then have "pow2 k * pow2 (- k) = 1" by (simp add: pow2_zero)
  then show ?thesis using pow2_pos [of k] by (simp add: field_simps)
qed

lemma expo_eq:
  assumes "pow2 k \<le> \<bar>x\<bar>" and "\<bar>x\<bar> < pow2 (k + 1)" and "- 126 \<le> k"
  shows "expo x = k"
proof -
  have "0 < \<bar>x\<bar>" using assms(1) pow2_pos [of k] by linarith
  then have "\<lfloor>log 2 \<bar>x\<bar>\<rfloor> = k"
    using assms(1,2) floor_log_eq_powr_iff [of "\<bar>x\<bar>" 2 k] by (simp add: pow2_powr)
  then show ?thesis using assms(3) by (simp add: expo_def)
qed

lemma round32_eval:
  assumes "pow2 k \<le> \<bar>x\<bar>" and "\<bar>x\<bar> < pow2 (k + 1)" and "- 126 \<le> k"
  shows "round32 x = of_int (rhe (x / pow2 (k - 23))) * pow2 (k - 23)"
proof -
  have "x \<noteq> 0" using assms(1) pow2_pos [of k] by auto
  then show ?thesis by (simp add: round32_def ulp_def expo_eq [OF assms])
qed




lemma round32_one: "round32 1 = 1"
  using round32_eval [of 0 1] by (simp add: pow2_def rhe_def)

lemma round32_third: "round32 (1 / 3) = 11184811 / 2 ^ 25"
  using round32_eval [of "- 2" "1 / 3"] by (simp add: pow2_def rhe_def)


lemma to_float32_cases:
  "to_float32 x = PosInf \<and> 2 ^ 128 \<le> round32 x \<or>
   to_float32 x = NegInf \<and> round32 x \<le> - (2 ^ 128) \<or>
   to_float32 x = Fin (round32 x) \<and> - (2 ^ 128) < round32 x \<and> round32 x < 2 ^ 128"
  by (auto simp: to_float32_def Let_def)


lemma to_float32_zero: "to_float32 0 = Fin 0"
  by (simp add: to_float32_def round32_def)





subsection \<open>Float32 sums\<close>














subsection \<open>Lists of optional values and broadcasting\<close>

lemma those_Some_nth:
  "those xs = Some ys \<Longrightarrow> length ys = length xs \<and> (\<forall>i<length xs. xs ! i = Some (ys ! i))"
proof (induction xs arbitrary: ys)
  case Nil then show ?case by simp
next
  case (Cons x xs)
  then show ?case by (auto split: option.splits simp: nth_Cons split: nat.splits)
qed

lemma those_total:
  "\<forall>x\<in>set xs. x \<noteq> None \<Longrightarrow> \<exists>ys. those xs = Some ys"
  by (induction xs) (auto split: option.splits)


lemma bcast_same: "length xs = length ys \<Longrightarrow> bcast f xs ys = Some (map2 f xs ys)"
  by (simp add: bcast_def)

lemma add_placeholder_length: "length (add_placeholder T) = length T"
  by (simp add: add_placeholder_def)

lemma add_placeholder_nth:
  "i < length T \<Longrightarrow>
     add_placeholder T ! i = of_flag (\<not> (\<exists>x \<in> set (T ! i). truthy x)) # T ! i"
  by (simp add: add_placeholder_def)

lemma truthy_of_flag: "truthy (of_flag b) = b"
  by (simp add: truthy_def of_flag_def)

lemma add_placeholder_row_true:
  assumes "i < length T"
  shows "\<exists>x \<in> set (add_placeholder T ! i). truthy x"
proof (cases "\<exists>x \<in> set (T ! i). truthy x")
  case True
  then show ?thesis using assms by (auto simp: add_placeholder_nth)
next
  case False
  then have "truthy (of_flag (\<not> (\<exists>x \<in> set (T ! i). truthy x)))" by (simp add: truthy_of_flag)
  then show ?thesis using assms by (simp add: add_placeholder_nth)
qed

lemma take_index_in_range:
  "- int (length row) \<le> k \<Longrightarrow> k < int (length row) \<Longrightarrow> \<exists>y. take_index row k = Some y"
  by (auto simp: take_index_def Let_def)

lemma take_row_total:
  assumes "\<forall>k \<in> set idxs. - int (length row) \<le> k \<and> k < int (length row)"
  shows "\<exists>ys. take_row row idxs = Some ys"
  unfolding take_row_def
proof (rule those_total, rule ballI)
  fix x assume "x \<in> set (map (take_index row) idxs)"
  then obtain k where "k \<in> set idxs" and x: "x = take_index row k" by auto
  with assms have "- int (length row) \<le> k" and "k < int (length row)" by auto
  from take_index_in_range [OF this] show "x \<noteq> None" using x by auto
qed

lemma take_along_axis_total:
  assumes len: "length arr = length indices"
    and rng: "\<forall>i<length indices. \<forall>k \<in> set (indices ! i).
               - int (length (arr ! i)) \<le> k \<and> k < int (length (arr ! i))"
  shows "\<exists>T. take_along_axis arr indices = Inr T"
proof -
  have "\<forall>x \<in> set (map2 take_row arr indices). x \<noteq> None"
  proof
    fix x assume "x \<in> set (map2 take_row arr indices)"
    then obtain i where i: "i < length indices" and x: "x = take_row (arr ! i) (indices ! i)"
      using len by (auto simp: in_set_conv_nth)
    from rng i have "\<forall>k \<in> set (indices ! i). - int (length (arr ! i)) \<le> k \<and> k < int (length (arr ! i))"
      by blast
    from take_row_total [OF this] show "x \<noteq> None" using x by auto
  qed
  from those_total [OF this] obtain T where "those (map2 take_row arr indices) = Some T" ..
  then show ?thesis by (simp add: take_along_axis_def bcast_same [OF len])
qed









subsection \<open>The gold agreement matrix\<close>

text \<open>
  Claim C2. In every gold agreement matrix that \<open>get_loss\<close> builds, each row is the
  placeholder entry followed by the gathered candidate entries; the placeholder entry is true
  exactly when no gathered entry of the row is true; so every row has a true entry. The
  matrix is built whenever the index matrix has as many rows as the gold matrix and every
  index lies within its row.
\<close>

theorem gold_agreement_placeholder:
  "(gold_agreement gscores mention_idx = Inr G \<longrightarrow>
      (\<exists>T. take_along_axis (map (map of_flag) gscores) mention_idx = Inr T \<and>
           length G = length T \<and>
           (\<forall>i<length G.
              G ! i = hd (G ! i) # T ! i \<and>
              (truthy (hd (G ! i)) \<longleftrightarrow> \<not> (\<exists>x \<in> set (T ! i). truthy x)) \<and>
              (\<exists>x \<in> set (G ! i). truthy x)))) \<and>
   (length gscores = length mention_idx \<and>
    (\<forall>i<length mention_idx. \<forall>k \<in> set (mention_idx ! i).
        - int (length (gscores ! i)) \<le> k \<and> k < int (length (gscores ! i))) \<longrightarrow>
      (\<exists>G'. gold_agreement gscores mention_idx = Inr G'))"
proof (intro conjI impI)
  assume "gold_agreement gscores mention_idx = Inr G"
  then obtain T where T: "take_along_axis (map (map of_flag) gscores) mention_idx = Inr T"
    and G: "G = add_placeholder T"
    by (auto simp: gold_agreement_def split: sum.splits)
  have "\<forall>i<length G.
          G ! i = hd (G ! i) # T ! i \<and>
          (truthy (hd (G ! i)) \<longleftrightarrow> \<not> (\<exists>x \<in> set (T ! i). truthy x)) \<and>
          (\<exists>x \<in> set (G ! i). truthy x)"
  proof (intro allI impI)
    fix i assume "i < length G"
    then have i: "i < length T" by (simp add: G add_placeholder_length)
    show "G ! i = hd (G ! i) # T ! i \<and>
          (truthy (hd (G ! i)) \<longleftrightarrow> \<not> (\<exists>x \<in> set (T ! i). truthy x)) \<and>
          (\<exists>x \<in> set (G ! i). truthy x)"
      using add_placeholder_row_true [OF i]
      by (simp add: G add_placeholder_nth [OF i] truthy_of_flag)
  qed
  then show "\<exists>T. take_along_axis (map (map of_flag) gscores) mention_idx = Inr T \<and>
           length G = length T \<and>
           (\<forall>i<length G.
              G ! i = hd (G ! i) # T ! i \<and>
              (truthy (hd (G ! i)) \<longleftrightarrow> \<not> (\<exists>x \<in> set (T ! i). truthy x)) \<and>
              (\<exists>x \<in> set (G ! i). truthy x))"
    using T by (auto simp: G add_placeholder_length)
next
  assume a: "length gscores = length mention_idx \<and>
    (\<forall>i<length mention_idx. \<forall>k \<in> set (mention_idx ! i).
        - int (length (gscores ! i)) \<le> k \<and> k < int (length (gscores ! i)))"
  have "\<exists>T. take_along_axis (map (map of_flag) gscores) mention_idx = Inr T"
    by (rule take_along_axis_total) (use a in auto)
  then show "\<exists>G'. gold_agreement gscores mention_idx = Inr G'"
    by (auto simp: gold_agreement_def)
qed

theorem gold_agreement_placeholder_witness:
  "gold_agreement [[False, False], [True, False]] [[0], [0]] = Inr [[Fin 1, Fin 0], [Fin 0, Fin 1]] \<and>
   take_along_axis (map (map of_flag) [[False, False], [True, False]]) [[0], [0]]
     = Inr [[Fin 0], [Fin 1]] \<and>
   truthy (hd [Fin 1, Fin 0 :: xfloat]) \<and> \<not> truthy (hd [Fin 0, Fin 1 :: xfloat])"
proof -
  have g: "gold_agreement [[False, False], [True, False]] [[0], [0]] =
             Inr [[Fin 1, Fin 0], [Fin 0, Fin 1]]"
    by (simp add: gold_agreement_def take_along_axis_def bcast_def take_row_def take_index_def
          add_placeholder_def of_flag_def truthy_def)
  have t: "take_along_axis (map (map of_flag) [[False, False], [True, False]]) [[0], [0]]
             = Inr [[Fin 0], [Fin 1]]"
    by (simp add: take_along_axis_def bcast_def take_row_def take_index_def of_flag_def)
  have r: "length [[False, False], [True, False]] = length [[0 :: int], [0]] \<and>
           (\<forall>i<length [[0 :: int], [0]]. \<forall>k \<in> set ([[0 :: int], [0]] ! i).
               - int (length ([[False, False], [True, False]] ! i)) \<le> k \<and>
               k < int (length ([[False, False], [True, False]] ! i)))"
    by (simp add: less_Suc_eq)
  show ?thesis
    using g t r
      gold_agreement_placeholder [of "[[False, False], [True, False]]" "[[0], [0]]"
        "[[Fin 1, Fin 0], [Fin 0, Fin 1]]"]
    by (simp add: truthy_def)
qed

subsection \<open>Rounding is odd\<close>

lemma rhe_minus: "rhe (- q) = - rhe q"
proof (cases "q = of_int \<lfloor>q\<rfloor>")
  case True
  then obtain n where "q = of_int n" ..
  then have "rhe q = n" and "rhe (- q) = - n"
    using rhe_of_int [of n] rhe_of_int [of "- n"] by simp_all
  then show ?thesis by simp
next
  case False
  then have lo: "of_int \<lfloor>q\<rfloor> < q" by linarith
  have hi: "q < of_int \<lfloor>q\<rfloor> + 1" by linarith
  have f: "\<lfloor>- q\<rfloor> = - \<lfloor>q\<rfloor> - 1"
  proof (rule floor_unique)
    have e: "(of_int (- \<lfloor>q\<rfloor> - 1) :: real) = - of_int \<lfloor>q\<rfloor> - 1" by simp
    show "of_int (- \<lfloor>q\<rfloor> - 1) \<le> - q" unfolding e using hi by linarith
    show "- q < of_int (- \<lfloor>q\<rfloor> - 1) + 1" unfolding e using lo by linarith
  qed
  show ?thesis
    unfolding rhe_def Let_def f by (auto simp: algebra_simps)
qed

lemma round32_minus: "round32 (- x) = - round32 x"
proof -
  have "ulp (- x) = ulp x" by (simp add: ulp_def expo_def)
  then show ?thesis using rhe_minus [of "x / ulp x"] by (simp add: round32_def)
qed


subsection \<open>The row maximum\<close>









subsection \<open>The entries of a softmax row\<close>









subsection \<open>The sum of a softmax row\<close>









subsection \<open>The reference numpy\<close>




subsection \<open>Float32 values used in the instances\<close>

lemma round32_two: "round32 2 = 2"
  using round32_eval [of 1 2] by (simp add: pow2_def rhe_def)

lemma round32_three: "round32 3 = 3"
  using round32_eval [of 1 3] by (simp add: pow2_def rhe_def)

lemma round32_half: "round32 (1 / 2) = 1 / 2"
  using round32_eval [of "- 1" "1 / 2"] by (simp add: pow2_def rhe_def)

lemma round32_quarter: "round32 (1 / 4) = 1 / 4"
  using round32_eval [of "- 2" "1 / 4"] by (simp add: pow2_def rhe_def)

lemma to_float32_one: "to_float32 1 = Fin 1"
  by (simp add: to_float32_def round32_one)

lemma to_float32_two: "to_float32 2 = Fin 2"
  by (simp add: to_float32_def round32_two)

lemma to_float32_three: "to_float32 3 = Fin 3"
  by (simp add: to_float32_def round32_three)

lemma to_float32_half: "to_float32 (1 / 2) = Fin (1 / 2)"
  by (simp add: to_float32_def round32_half)

lemma to_float32_minus_half: "to_float32 (- (1 / 2)) = Fin (- (1 / 2))"
  by (simp add: to_float32_def round32_minus round32_half)

lemma to_float32_quarter: "to_float32 (1 / 4) = Fin (1 / 4)"
  by (simp add: to_float32_def round32_quarter)

lemma to_float32_third: "to_float32 (1 / 3) = Fin (11184811 / 2 ^ 25)"
  by (simp add: to_float32_def round32_third)


lemmas float32_values =
  to_float32_zero to_float32_one to_float32_two to_float32_three to_float32_half
  to_float32_minus_half to_float32_quarter to_float32_third







subsection \<open>Entries between 0 and 1\<close>












subsection \<open>The scalar loss\<close>







subsection \<open>The gradient of \<open>CoreferenceResolver.get_loss\<close>\<close>







subsection \<open>The loss for finite and for infinite scores\<close>






subsection \<open>\<open>get_loss\<close> with more than one example\<close>

lemma coref_get_loss_first_example:
  "coref_get_loss np gold (ex # rest) S mention_idx = coref_get_loss np gold [ex] S mention_idx"
  by (simp add: coref_get_loss_def)

lemma span_get_loss_asserts:
  "length examples \<noteq> 1 \<Longrightarrow>
     span_get_loss np to_categorical output_prefix examples t = Inl AssertionError"
  by (auto simp: span_get_loss_def split: list.splits)

text \<open>
  Claim C4. Called with two examples, \<open>SpanPredictor.get_loss\<close> fails its assertion, while
  \<open>CoreferenceResolver.get_loss\<close> returns the loss and gradient of the first example alone:
  the result is the one for the first example by itself, and differs from the one for the
  second example by itself.
\<close>

theorem get_loss_two_examples:
  "coref_get_loss reference_numpy (\<lambda>d n. replicate n (replicate n (spans d \<noteq> [])))
       [\<lparr>predicted = \<lparr>n_tokens = 1, spans = []\<rparr>, reference = \<lparr>n_tokens = 1, spans = []\<rparr>\<rparr>,
        \<lparr>predicted = \<lparr>n_tokens = 1, spans = []\<rparr>,
         reference = \<lparr>n_tokens = 1, spans = [(''coref_clusters_0'', [])]\<rparr>\<rparr>]
       [[Fin 0, Fin 0]] [[0]]
     = Inr (Fin (1 / 2), [[Fin (- (1 / 2)), Fin (1 / 2)]]) \<and>
   coref_get_loss reference_numpy (\<lambda>d n. replicate n (replicate n (spans d \<noteq> [])))
       [\<lparr>predicted = \<lparr>n_tokens = 1, spans = []\<rparr>, reference = \<lparr>n_tokens = 1, spans = []\<rparr>\<rparr>]
       [[Fin 0, Fin 0]] [[0]]
     = Inr (Fin (1 / 2), [[Fin (- (1 / 2)), Fin (1 / 2)]]) \<and>
   coref_get_loss reference_numpy (\<lambda>d n. replicate n (replicate n (spans d \<noteq> [])))
       [\<lparr>predicted = \<lparr>n_tokens = 1, spans = []\<rparr>,
         reference = \<lparr>n_tokens = 1, spans = [(''coref_clusters_0'', [])]\<rparr>\<rparr>]
       [[Fin 0, Fin 0]] [[0]]
     = Inr (Fin (1 / 2), [[Fin (1 / 2), Fin (- (1 / 2))]]) \<and>
   span_get_loss reference_numpy one_hot ''coref_clusters''
       [\<lparr>predicted = \<lparr>n_tokens = 1, spans = []\<rparr>, reference = \<lparr>n_tokens = 1, spans = []\<rparr>\<rparr>,
        \<lparr>predicted = \<lparr>n_tokens = 1, spans = []\<rparr>,
         reference = \<lparr>n_tokens = 1, spans = [(''coref_clusters_0'', [])]\<rparr>\<rparr>]
       \<lparr>n_positions = 2, entries = [[(Fin 0, Fin 0), (Fin 0, Fin 0)]]\<rparr>
     = Inl AssertionError"
  by (simp add: coref_get_loss_def gold_agreement_def take_along_axis_def bcast_def take_row_def
        take_index_def add_placeholder_def of_flag_def truthy_def elementwise_def softmax_def
        softmax_row_def Let_def row_max_def reference_numpy_def f32_sub_def span_get_loss_def
        float32_values)

theorem get_loss_two_examples_witness:
  "coref_get_loss reference_numpy (\<lambda>d n. replicate n (replicate n (spans d \<noteq> [])))
       [\<lparr>predicted = \<lparr>n_tokens = 1, spans = []\<rparr>, reference = \<lparr>n_tokens = 1, spans = []\<rparr>\<rparr>,
        \<lparr>predicted = \<lparr>n_tokens = 1, spans = []\<rparr>,
         reference = \<lparr>n_tokens = 1, spans = [(''coref_clusters_0'', [])]\<rparr>\<rparr>]
       [[Fin 0, Fin 0]] [[0]]
     = coref_get_loss reference_numpy (\<lambda>d n. replicate n (replicate n (spans d \<noteq> [])))
       [\<lparr>predicted = \<lparr>n_tokens = 1, spans = []\<rparr>, reference = \<lparr>n_tokens = 1, spans = []\<rparr>\<rparr>]
       [[Fin 0, Fin 0]] [[0]]"
  using get_loss_two_examples by simp

subsection \<open>\<open>set_annotations\<close>\<close>

lemma coref_set_annotations_length_mismatch:
  "length docs \<noteq> length clusters_by_doc \<Longrightarrow>
     coref_set_annotations slice prefix docs clusters_by_doc = (docs, Some ValueError)"
  by (simp add: coref_set_annotations_def)

lemma coref_annotate_doc_collision:
  "cluster_key prefix ii \<in> fst ` set (spans d) \<Longrightarrow>
     coref_annotate_doc slice prefix ii d (cluster # clusters) = (d, Some ValueError)"
  by simp

text \<open>
  Claim C5. \<open>CoreferenceResolver.set_annotations\<close> raises a \<open>ValueError\<close> and leaves the
  documents as they were, both when there are two documents for one list of clusters and
  when the key \<open>coref_clusters_0\<close> is already in the document. On the same two inputs
  \<open>SpanPredictor.set_annotations\<close> raises nothing: it annotates the first document only, and
  it replaces the spans stored under the existing key.
\<close>

theorem span_set_annotations_unchecked:
  "span_set_annotations (\<lambda>d a b. \<lparr>span_start = a, span_end = b\<rparr>) ''coref_clusters''
       [\<lparr>n_tokens = 2, spans = []\<rparr>, \<lparr>n_tokens = 2, spans = []\<rparr>] [[[(0, 1)]]]
     = ([\<lparr>n_tokens = 2, spans = [(''coref_clusters_0'', [\<lparr>span_start = 0, span_end = 1\<rparr>])]\<rparr>,
         \<lparr>n_tokens = 2, spans = []\<rparr>], None) \<and>
   coref_set_annotations (\<lambda>d a b. \<lparr>span_start = a, span_end = b\<rparr>) ''coref_clusters''
       [\<lparr>n_tokens = 2, spans = []\<rparr>, \<lparr>n_tokens = 2, spans = []\<rparr>] [[[(0, 1)]]]
     = ([\<lparr>n_tokens = 2, spans = []\<rparr>, \<lparr>n_tokens = 2, spans = []\<rparr>], Some ValueError) \<and>
   span_set_annotations (\<lambda>d a b. \<lparr>span_start = a, span_end = b\<rparr>) ''coref_clusters''
       [\<lparr>n_tokens = 2, spans = [(''coref_clusters_0'', [\<lparr>span_start = 1, span_end = 2\<rparr>])]\<rparr>]
       [[[(0, 1)]]]
     = ([\<lparr>n_tokens = 2, spans = [(''coref_clusters_0'', [\<lparr>span_start = 0, span_end = 1\<rparr>])]\<rparr>],
        None) \<and>
   coref_set_annotations (\<lambda>d a b. \<lparr>span_start = a, span_end = b\<rparr>) ''coref_clusters''
       [\<lparr>n_tokens = 2, spans = [(''coref_clusters_0'', [\<lparr>span_start = 1, span_end = 2\<rparr>])]\<rparr>]
       [[[(0, 1)]]]
     = ([\<lparr>n_tokens = 2, spans = [(''coref_clusters_0'', [\<lparr>span_start = 1, span_end = 2\<rparr>])]\<rparr>],
        Some ValueError)"
  by (simp add: coref_set_annotations_def cluster_key_def str_nat.simps)

theorem span_set_annotations_unchecked_witness:
  "snd (span_set_annotations (\<lambda>d a b. \<lparr>span_start = a, span_end = b\<rparr>) ''coref_clusters''
          [\<lparr>n_tokens = 2, spans = []\<rparr>, \<lparr>n_tokens = 2, spans = []\<rparr>] [[[(0, 1)]]]) = None \<and>
   snd (coref_set_annotations (\<lambda>d a b. \<lparr>span_start = a, span_end = b\<rparr>) ''coref_clusters''
          [\<lparr>n_tokens = 2, spans = []\<rparr>, \<lparr>n_tokens = 2, spans = []\<rparr>] [[[(0, 1)]]])
     = Some ValueError"
  using span_set_annotations_unchecked by simp

subsection \<open>\<open>SpanPredictor.predict\<close>\<close>

lemma xless_irrefl: "\<not> xless x x"
  by (cases x) auto

lemma xless_asym: "xless a b \<Longrightarrow> \<not> xless b a"
  by (cases a; cases b) auto

lemma xless_le_less: "\<not> xless b a \<Longrightarrow> xless b c \<Longrightarrow> xless a c"
  by (cases a; cases b; cases c) auto

lemma is_fin_conv: "is_fin x \<longleftrightarrow> x = Fin (fin_val x)"
  by (cases x) auto

lemma argmax_from_spec:
  assumes "i = length pre" and "bi < length pre" and "bv = pre ! bi"
    and "\<forall>j<length pre. \<not> xless bv (pre ! j)" and "\<forall>j<bi. xless (pre ! j) bv"
  shows "argmax_from xs i bi bv < length (pre @ xs) \<and>
         (\<forall>j<length (pre @ xs). \<not> xless ((pre @ xs) ! argmax_from xs i bi bv) ((pre @ xs) ! j)) \<and>
         (\<forall>j<argmax_from xs i bi bv. xless ((pre @ xs) ! j) ((pre @ xs) ! argmax_from xs i bi bv))"
  using assms
proof (induction xs arbitrary: pre i bi bv)
  case Nil
  then show ?case by simp
next
  case (Cons x xs)
  show ?case
  proof (cases "xless bv x")
    case True
    have below: "xless (pre ! j) x" if "j < length pre" for j
      using Cons.prems(4) that True by (blast intro: xless_le_less)
    have "argmax_from xs (Suc i) i x < length ((pre @ [x]) @ xs) \<and>
         (\<forall>j<length ((pre @ [x]) @ xs).
            \<not> xless (((pre @ [x]) @ xs) ! argmax_from xs (Suc i) i x) (((pre @ [x]) @ xs) ! j)) \<and>
         (\<forall>j<argmax_from xs (Suc i) i x.
            xless (((pre @ [x]) @ xs) ! j) (((pre @ [x]) @ xs) ! argmax_from xs (Suc i) i x))"
    proof (rule Cons.IH)
      show "Suc i = length (pre @ [x])" using Cons.prems(1) by simp
      show "i < length (pre @ [x])" using Cons.prems(1) by simp
      show "x = (pre @ [x]) ! i" using Cons.prems(1) by simp
      show "\<forall>j<length (pre @ [x]). \<not> xless x ((pre @ [x]) ! j)"
      proof (intro allI impI)
        fix j assume "j < length (pre @ [x])"
        then consider "j < length pre" | "j = length pre" by fastforce
        then show "\<not> xless x ((pre @ [x]) ! j)"
        proof cases
          case 1
          then show ?thesis using below [OF 1] by (simp add: nth_append xless_asym)
        next
          case 2
          then show ?thesis by (simp add: xless_irrefl)
        qed
      qed
      show "\<forall>j<i. xless ((pre @ [x]) ! j) x"
      proof (intro allI impI)
        fix j assume "j < i"
        then have j: "j < length pre" using Cons.prems(1) by simp
        then show "xless ((pre @ [x]) ! j) x" using below [OF j] by (simp add: nth_append)
      qed
    qed
    then show ?thesis using True by simp
  next
    case False
    have "argmax_from xs (Suc i) bi bv < length ((pre @ [x]) @ xs) \<and>
         (\<forall>j<length ((pre @ [x]) @ xs).
            \<not> xless (((pre @ [x]) @ xs) ! argmax_from xs (Suc i) bi bv) (((pre @ [x]) @ xs) ! j)) \<and>
         (\<forall>j<argmax_from xs (Suc i) bi bv.
            xless (((pre @ [x]) @ xs) ! j) (((pre @ [x]) @ xs) ! argmax_from xs (Suc i) bi bv))"
    proof (rule Cons.IH)
      show "Suc i = length (pre @ [x])" using Cons.prems(1) by simp
      show "bi < length (pre @ [x])" using Cons.prems(2) by simp
      show "bv = (pre @ [x]) ! bi" using Cons.prems(2,3) by (simp add: nth_append)
      show "\<forall>j<length (pre @ [x]). \<not> xless bv ((pre @ [x]) ! j)"
        using Cons.prems(4) False by (auto simp: nth_append less_Suc_eq)
      show "\<forall>j<bi. xless ((pre @ [x]) ! j) bv"
        using Cons.prems(2,5) by (auto simp: nth_append)
    qed
    then show ?thesis using False by simp
  qed
qed

lemma argmax_row_spec:
  assumes "argmax_row r = Some k"
  shows "k < length r \<and> (\<forall>j<length r. \<not> xless (r ! k) (r ! j)) \<and> (\<forall>j<k. xless (r ! j) (r ! k))"
proof (cases r)
  case Nil
  then show ?thesis using assms by simp
next
  case (Cons x xs)
  then have k: "k = argmax_from xs 1 0 x" using assms by simp
  have "argmax_from xs 1 0 x < length ([x] @ xs) \<and>
         (\<forall>j<length ([x] @ xs). \<not> xless (([x] @ xs) ! argmax_from xs 1 0 x) (([x] @ xs) ! j)) \<and>
         (\<forall>j<argmax_from xs 1 0 x. xless (([x] @ xs) ! j) (([x] @ xs) ! argmax_from xs 1 0 x))"
    by (rule argmax_from_spec) (auto simp: xless_irrefl)
  then show ?thesis by (simp add: k Cons)
qed

lemma argmax_row_finite:
  assumes "argmax_row r = Some k" and "\<forall>x \<in> set r. is_fin x"
  shows "(\<forall>j<length r. fin_val (r ! j) \<le> fin_val (r ! k)) \<and>
         (\<forall>j<k. fin_val (r ! j) < fin_val (r ! k))"
proof -
  from argmax_row_spec [OF assms(1)] have k: "k < length r"
    and up: "\<forall>j<length r. \<not> xless (r ! k) (r ! j)" and lo: "\<forall>j<k. xless (r ! j) (r ! k)" by auto
  have f: "r ! j = Fin (fin_val (r ! j))" if "j < length r" for j
    using assms(2) that is_fin_conv [of "r ! j"] by simp
  have "fin_val (r ! j) \<le> fin_val (r ! k)" if "j < length r" for j
  proof -
    from up that have "\<not> xless (r ! k) (r ! j)" by blast
    then have "\<not> xless (Fin (fin_val (r ! k))) (Fin (fin_val (r ! j)))"
      using f [OF k] f [OF that] by simp
    then show ?thesis by simp
  qed
  moreover have "fin_val (r ! j) < fin_val (r ! k)" if "j < k" for j
  proof -
    have j: "j < length r" using that k by simp
    from lo that have "xless (r ! j) (r ! k)" by blast
    then have "xless (Fin (fin_val (r ! j))) (Fin (fin_val (r ! k)))"
      using f [OF k] f [OF j] by simp
    then show ?thesis by simp
  qed
  ultimately show ?thesis by blast
qed

lemma rebuild_cluster_result:
  "rebuild_cluster starts ends c ms = Inr (nc, c') \<Longrightarrow>
     c' = c + length ms \<and> length nc = length ms \<and>
     (\<forall>j<length ms. c + j < length starts \<and> c + j < length ends \<and>
                     nc ! j = (starts ! (c + j), ends ! (c + j)))"
proof (induction ms arbitrary: c nc c')
  case Nil
  then show ?case by simp
next
  case (Cons m ms)
  from Cons.prems obtain nc0 where c: "c < length starts" "c < length ends"
    and r: "rebuild_cluster starts ends (c + 1) ms = Inr (nc0, c')"
    and nc: "nc = (starts ! c, ends ! c) # nc0"
    by (auto split: if_splits sum.splits)
  from Cons.IH [OF r] have c': "c' = c + 1 + length ms" and l: "length nc0 = length ms"
    and b: "\<forall>j<length ms. c + 1 + j < length starts \<and> c + 1 + j < length ends \<and>
                     nc0 ! j = (starts ! (c + 1 + j), ends ! (c + 1 + j))" by auto
  have "\<forall>j<length (m # ms). c + j < length starts \<and> c + j < length ends \<and>
                     nc ! j = (starts ! (c + j), ends ! (c + j))"
  proof (intro allI impI)
    fix j assume j: "j < length (m # ms)"
    show "c + j < length starts \<and> c + j < length ends \<and>
                     nc ! j = (starts ! (c + j), ends ! (c + j))"
    proof (cases j)
      case 0
      then show ?thesis using c nc by simp
    next
      case (Suc j')
      then have "j' < length ms" using j by simp
      with b have "c + 1 + j' < length starts \<and> c + 1 + j' < length ends \<and>
                     nc0 ! j' = (starts ! (c + 1 + j'), ends ! (c + 1 + j'))" by blast
      then show ?thesis using Suc nc by simp
    qed
  qed
  then show ?case using c' l nc by simp
qed

lemma rebuild_cluster_total:
  "c + length ms \<le> length starts \<Longrightarrow> c + length ms \<le> length ends \<Longrightarrow>
     \<exists>nc. rebuild_cluster starts ends c ms = Inr (nc, c + length ms)"
proof (induction ms arbitrary: c)
  case Nil
  then show ?case by simp
next
  case (Cons m ms)
  then have "c + 1 + length ms \<le> length starts" and "c + 1 + length ms \<le> length ends" by auto
  from Cons.IH [OF this] obtain nc where "rebuild_cluster starts ends (c + 1) ms = Inr (nc, c + 1 + length ms)"
    by blast
  then show ?case using Cons.prems by auto
qed

lemma rebuild_clusters_result:
  "rebuild_clusters starts ends c cs = Inr out \<Longrightarrow>
     map length out = map length cs \<and> length (concat out) = length (concat cs) \<and>
     (\<forall>k<length (concat cs). c + k < length starts \<and> c + k < length ends \<and>
                     concat out ! k = (starts ! (c + k), ends ! (c + k)))"
proof (induction cs arbitrary: c out)
  case Nil
  then show ?case by simp
next
  case (Cons cl cs)
  from Cons.prems obtain nc c' out0 where r1: "rebuild_cluster starts ends c cl = Inr (nc, c')"
    and r2: "rebuild_clusters starts ends c' cs = Inr out0" and out: "out = nc # out0"
    by (auto split: sum.splits)
  from rebuild_cluster_result [OF r1] have c': "c' = c + length cl" and lnc: "length nc = length cl"
    and b1: "\<forall>j<length cl. c + j < length starts \<and> c + j < length ends \<and>
                     nc ! j = (starts ! (c + j), ends ! (c + j))" by auto
  from Cons.IH [OF r2] have l: "map length out0 = map length cs"
    and lc: "length (concat out0) = length (concat cs)"
    and b2: "\<forall>k<length (concat cs). c' + k < length starts \<and> c' + k < length ends \<and>
                     concat out0 ! k = (starts ! (c' + k), ends ! (c' + k))" by auto
  have "\<forall>k<length (concat (cl # cs)). c + k < length starts \<and> c + k < length ends \<and>
                     concat out ! k = (starts ! (c + k), ends ! (c + k))"
  proof (intro allI impI)
    fix k assume k: "k < length (concat (cl # cs))"
    show "c + k < length starts \<and> c + k < length ends \<and>
                     concat out ! k = (starts ! (c + k), ends ! (c + k))"
    proof (cases "k < length cl")
      case True
      with b1 have "c + k < length starts \<and> c + k < length ends \<and>
                     nc ! k = (starts ! (c + k), ends ! (c + k))" by blast
      then show ?thesis using True lnc by (simp add: out nth_append)
    next
      case False
      then have k': "k - length cl < length (concat cs)" using k by auto
      with b2 have "c' + (k - length cl) < length starts \<and> c' + (k - length cl) < length ends \<and>
                     concat out0 ! (k - length cl) = (starts ! (c' + (k - length cl)), ends ! (c' + (k - length cl)))"
        by blast
      moreover have "c' + (k - length cl) = c + k" using False c' by simp
      ultimately show ?thesis using False lnc by (simp add: out nth_append)
    qed
  qed
  then show ?case using l lc lnc out by simp
qed

lemma rebuild_clusters_total:
  "c + length (concat cs) \<le> length starts \<Longrightarrow> c + length (concat cs) \<le> length ends \<Longrightarrow>
     \<exists>out. rebuild_clusters starts ends c cs = Inr out"
proof (induction cs arbitrary: c)
  case Nil
  then show ?case by simp
next
  case (Cons cl cs)
  have "c + length cl \<le> length starts" and "c + length cl \<le> length ends"
    using Cons.prems by auto
  from rebuild_cluster_total [OF this] obtain nc
    where nc: "rebuild_cluster starts ends c cl = Inr (nc, c + length cl)" by blast
  have "c + length cl + length (concat cs) \<le> length starts"
    and "c + length cl + length (concat cs) \<le> length ends" using Cons.prems by auto
  from Cons.IH [OF this] obtain out0
    where "rebuild_clusters starts ends (c + length cl) cs = Inr out0" by blast
  then show ?case using nc by simp
qed

lemma argmax_rows_result:
  assumes "argmax_rows X = Inr js"
  shows "length js = length X \<and> (\<forall>i<length X. argmax_row (X ! i) = Some (js ! i))"
proof -
  from assms have "those (map argmax_row X) = Some js"
    by (auto simp: argmax_rows_def split: option.splits)
  from those_Some_nth [OF this] show ?thesis by auto
qed

lemma argmax_rows_total:
  assumes "[] \<notin> set X"
  shows "\<exists>js. argmax_rows X = Inr js"
proof -
  have "\<forall>x \<in> set (map argmax_row X). x \<noteq> None"
  proof
    fix x assume "x \<in> set (map argmax_row X)"
    then obtain r where "r \<in> set X" and x: "x = argmax_row r" by auto
    with assms have "r \<noteq> []" by auto
    then show "x \<noteq> None" unfolding x by (cases r) auto
  qed
  from those_total [OF this] show ?thesis by (auto simp: argmax_rows_def)
qed

lemma span_predict_doc_parts:
  assumes out: "span_predict_doc model_predict doc2clusters input_prefix d = Inr out"
    and size: "tensor_size (model_predict d) \<noteq> 0"
  shows "\<exists>starts ends.
           argmax_rows (start_scores (model_predict d)) = Inr starts \<and>
           argmax_rows (end_scores (model_predict d)) = Inr ends \<and>
           rebuild_clusters starts ends 0 (doc2clusters d input_prefix) = Inr out"
  using out size by (auto simp: span_predict_doc_def Let_def split: sum.splits)

text \<open>
  Claim C6. When the score tensor is not empty and \<open>predict\<close> returns, there is one output
  span per input mention, and the span at position \<open>c\<close> (counting through the clusters in
  order) is the pair of the argmax of row \<open>c\<close> of the start scores and the argmax of row \<open>c\<close>
  of the end scores, each taken on its own row: the start \<open>k\<close> is a position of the start
  row \<open>r\<close>, no entry of \<open>r\<close> is larger than \<open>r ! k\<close>, and every entry before \<open>k\<close> is
  smaller; the same holds for the end and the end row. For a row of finite scores this is
  the order of the numbers. Nothing relates the start to the end: in the instance that
  follows the theorem the span returned is \<open>(1, 0)\<close>.
\<close>

theorem span_predict_independent_argmax:
  assumes out: "span_predict_doc model_predict doc2clusters input_prefix d = Inr out"
    and size: "tensor_size (model_predict d) \<noteq> 0"
  shows "length (concat out) = length (concat (doc2clusters d input_prefix)) \<and>
         (\<forall>c<length (concat out).
            c < length (entries (model_predict d)) \<and>
            (let r = map fst (entries (model_predict d) ! c); k = fst (concat out ! c)
             in argmax_row r = Some k \<and> k < length r \<and>
                (\<forall>j<length r. \<not> xless (r ! k) (r ! j)) \<and> (\<forall>j<k. xless (r ! j) (r ! k)) \<and>
                ((\<forall>x \<in> set r. is_fin x) \<longrightarrow>
                   (\<forall>j<length r. fin_val (r ! j) \<le> fin_val (r ! k)) \<and>
                   (\<forall>j<k. fin_val (r ! j) < fin_val (r ! k)))) \<and>
            (let r = map snd (entries (model_predict d) ! c); k = snd (concat out ! c)
             in argmax_row r = Some k \<and> k < length r \<and>
                (\<forall>j<length r. \<not> xless (r ! k) (r ! j)) \<and> (\<forall>j<k. xless (r ! j) (r ! k)) \<and>
                ((\<forall>x \<in> set r. is_fin x) \<longrightarrow>
                   (\<forall>j<length r. fin_val (r ! j) \<le> fin_val (r ! k)) \<and>
                   (\<forall>j<k. fin_val (r ! j) < fin_val (r ! k)))))"
proof -
  let ?t = "model_predict d"
  let ?cs = "doc2clusters d input_prefix"
  from span_predict_doc_parts [OF out size] obtain starts ends where
    s: "argmax_rows (start_scores ?t) = Inr starts" and
    e: "argmax_rows (end_scores ?t) = Inr ends" and
    r: "rebuild_clusters starts ends 0 ?cs = Inr out" by blast
  have ls: "length starts = length (entries ?t)"
    using argmax_rows_result [OF s] by (simp add: start_scores_def)
  have ar: "\<forall>i<length (entries ?t).
              argmax_row (map fst (entries ?t ! i)) = Some (starts ! i) \<and>
              argmax_row (map snd (entries ?t ! i)) = Some (ends ! i)"
    using argmax_rows_result [OF s] argmax_rows_result [OF e]
    by (simp add: start_scores_def end_scores_def)
  from rebuild_clusters_result [OF r] have len: "length (concat out) = length (concat ?cs)"
    and b: "\<forall>k<length (concat ?cs). k < length starts \<and> k < length ends \<and>
                     concat out ! k = (starts ! k, ends ! k)" by auto
  have full: "argmax_row r = Some k \<and> k < length r \<and>
                (\<forall>j<length r. \<not> xless (r ! k) (r ! j)) \<and> (\<forall>j<k. xless (r ! j) (r ! k)) \<and>
                ((\<forall>x \<in> set r. is_fin x) \<longrightarrow>
                   (\<forall>j<length r. fin_val (r ! j) \<le> fin_val (r ! k)) \<and>
                   (\<forall>j<k. fin_val (r ! j) < fin_val (r ! k)))"
    if "argmax_row r = Some k" for r k
    using that argmax_row_spec [OF that] argmax_row_finite [OF that] by blast
  have "c < length (entries ?t) \<and>
            (let r = map fst (entries ?t ! c); k = fst (concat out ! c)
             in argmax_row r = Some k \<and> k < length r \<and>
                (\<forall>j<length r. \<not> xless (r ! k) (r ! j)) \<and> (\<forall>j<k. xless (r ! j) (r ! k)) \<and>
                ((\<forall>x \<in> set r. is_fin x) \<longrightarrow>
                   (\<forall>j<length r. fin_val (r ! j) \<le> fin_val (r ! k)) \<and>
                   (\<forall>j<k. fin_val (r ! j) < fin_val (r ! k)))) \<and>
            (let r = map snd (entries ?t ! c); k = snd (concat out ! c)
             in argmax_row r = Some k \<and> k < length r \<and>
                (\<forall>j<length r. \<not> xless (r ! k) (r ! j)) \<and> (\<forall>j<k. xless (r ! j) (r ! k)) \<and>
                ((\<forall>x \<in> set r. is_fin x) \<longrightarrow>
                   (\<forall>j<length r. fin_val (r ! j) \<le> fin_val (r ! k)) \<and>
                   (\<forall>j<k. fin_val (r ! j) < fin_val (r ! k))))"
    if "c < length (concat out)" for c
  proof -
    from that have c: "c < length (concat ?cs)" using len by simp
    with b have c': "c < length (entries ?t)" and o: "concat out ! c = (starts ! c, ends ! c)"
      using ls by auto
    from ar c' have a1: "argmax_row (map fst (entries ?t ! c)) = Some (fst (concat out ! c))"
      and a2: "argmax_row (map snd (entries ?t ! c)) = Some (snd (concat out ! c))"
      using o by simp_all
    show ?thesis unfolding Let_def using c' full [OF a1] full [OF a2] by blast
  qed
  with len show ?thesis by blast
qed

theorem span_predict_independent_argmax_witness:
  "span_predict_doc
       (\<lambda>d. \<lparr>n_positions = 3, entries = [[(Fin 0, Fin 2), (Fin 1, Fin 0), (Fin 1, Fin 1)]]\<rparr>)
       (\<lambda>d p. [[(0 :: int, 1 :: int)]]) ''coref_head_clusters'' \<lparr>n_tokens = 3, spans = []\<rparr>
     = Inr [[(1, 0)]] \<and>
   argmax_row (map fst [(Fin 0, Fin 2), (Fin 1, Fin 0), (Fin 1, Fin 1)]) = Some 1 \<and>
   argmax_row (map snd [(Fin 0, Fin 2), (Fin 1, Fin 0), (Fin 1, Fin 1)]) = Some 0"
proof -
  let ?m = "\<lambda>d :: doc. \<lparr>n_positions = 3,
                         entries = [[(Fin 0, Fin 2), (Fin 1, Fin 0), (Fin 1, Fin 1)]]\<rparr>"
  let ?c = "\<lambda>(d :: doc) (p :: string). [[(0 :: int, 1 :: int)]]"
  let ?d = "\<lparr>n_tokens = 3, spans = []\<rparr>"
  have e: "span_predict_doc ?m ?c ''coref_head_clusters'' ?d = Inr [[(1, 0)]]"
    by (simp add: span_predict_doc_def tensor_size_def start_scores_def end_scores_def
          argmax_rows_def)
  have s: "tensor_size (?m ?d) \<noteq> 0" by (simp add: tensor_size_def)
  show ?thesis
    using e span_predict_independent_argmax [OF e s] by (simp add: Let_def)
qed

text \<open>
  Claim C9. When the score tensor is not empty and \<open>predict\<close> returns, the output has as
  many clusters as the input partition and cluster \<open>i\<close> has as many mentions as input
  cluster \<open>i\<close>; the mentions are filled in order from the rows of the argmax arrays. It does
  return when every row of the tensor has the length of the token axis and there are at
  least as many rows as input mentions.
\<close>

theorem span_predict_preserves_shape:
  "(span_predict_doc model_predict doc2clusters input_prefix d = Inr out \<and>
    tensor_size (model_predict d) \<noteq> 0 \<longrightarrow>
      map length out = map length (doc2clusters d input_prefix) \<and>
      (\<exists>starts ends.
         argmax_rows (start_scores (model_predict d)) = Inr starts \<and>
         argmax_rows (end_scores (model_predict d)) = Inr ends \<and>
         (\<forall>k<length (concat out). concat out ! k = (starts ! k, ends ! k)))) \<and>
   (tensor_size (model_predict d) \<noteq> 0 \<and>
    (\<forall>row \<in> set (entries (model_predict d)). length row = n_positions (model_predict d)) \<and>
    length (concat (doc2clusters d input_prefix)) \<le> length (entries (model_predict d)) \<longrightarrow>
      (\<exists>out'. span_predict_doc model_predict doc2clusters input_prefix d = Inr out'))"
proof (rule conjI; rule impI)
  assume a: "span_predict_doc model_predict doc2clusters input_prefix d = Inr out \<and>
    tensor_size (model_predict d) \<noteq> 0"
  then obtain starts ends
    where s: "argmax_rows (start_scores (model_predict d)) = Inr starts"
      and e: "argmax_rows (end_scores (model_predict d)) = Inr ends"
      and r: "rebuild_clusters starts ends 0 (doc2clusters d input_prefix) = Inr out"
    using span_predict_doc_parts [of model_predict doc2clusters input_prefix d out] by blast
  from rebuild_clusters_result [OF r]
  have l: "map length out = map length (doc2clusters d input_prefix)"
    and k: "\<forall>k<length (concat out). concat out ! k = (starts ! k, ends ! k)" by auto
  from s e k have "\<exists>starts ends.
         argmax_rows (start_scores (model_predict d)) = Inr starts \<and>
         argmax_rows (end_scores (model_predict d)) = Inr ends \<and>
         (\<forall>k<length (concat out). concat out ! k = (starts ! k, ends ! k))" by blast
  with l show "map length out = map length (doc2clusters d input_prefix) \<and>
      (\<exists>starts ends.
         argmax_rows (start_scores (model_predict d)) = Inr starts \<and>
         argmax_rows (end_scores (model_predict d)) = Inr ends \<and>
         (\<forall>k<length (concat out). concat out ! k = (starts ! k, ends ! k)))" by blast
next
  let ?t = "model_predict d"
  assume a: "tensor_size ?t \<noteq> 0 \<and>
    (\<forall>row \<in> set (entries ?t). length row = n_positions ?t) \<and>
    length (concat (doc2clusters d input_prefix)) \<le> length (entries ?t)"
  then have pos: "0 < n_positions ?t" by (simp add: tensor_size_def)
  with a have ne: "\<forall>row \<in> set (entries ?t). row \<noteq> []" by auto
  have "[] \<notin> set (start_scores ?t)" using ne by (auto simp: start_scores_def)
  from argmax_rows_total [OF this] obtain starts
    where s: "argmax_rows (start_scores ?t) = Inr starts" by blast
  have "[] \<notin> set (end_scores ?t)" using ne by (auto simp: end_scores_def)
  from argmax_rows_total [OF this] obtain ends
    where e: "argmax_rows (end_scores ?t) = Inr ends" by blast
  have ls: "length starts = length (entries ?t)"
    using argmax_rows_result [OF s] by (simp add: start_scores_def)
  have le: "length ends = length (entries ?t)"
    using argmax_rows_result [OF e] by (simp add: end_scores_def)
  have "\<exists>out'. rebuild_clusters starts ends 0 (doc2clusters d input_prefix) = Inr out'"
    by (rule rebuild_clusters_total) (use a ls le in auto)
  then show "\<exists>out'. span_predict_doc model_predict doc2clusters input_prefix d = Inr out'"
    using a s e by (simp add: span_predict_doc_def)
qed

theorem span_predict_preserves_shape_witness:
  "span_predict_doc
       (\<lambda>d. \<lparr>n_positions = 2,
              entries = [[(Fin 0, Fin 1), (Fin 1, Fin 0)], [(Fin 1, Fin 0), (Fin 0, Fin 1)],
                         [(Fin 0, Fin 0), (Fin 0, Fin 1)]]\<rparr>)
       (\<lambda>d p. [[(0 :: int, 1 :: int)], [(1, 2), (2, 3)]]) ''coref_head_clusters''
       \<lparr>n_tokens = 3, spans = []\<rparr>
     = Inr [[(1, 0)], [(0, 1), (0, 1)]] \<and>
   map length [[(1 :: nat, 0 :: nat)], [(0, 1), (0, 1)]]
     = map length [[(0 :: int, 1 :: int)], [(1, 2), (2, 3)]]"
proof -
  let ?m = "\<lambda>d :: doc. \<lparr>n_positions = 2,
              entries = [[(Fin 0, Fin 1), (Fin 1, Fin 0)], [(Fin 1, Fin 0), (Fin 0, Fin 1)],
                         [(Fin 0, Fin 0), (Fin 0, Fin 1)]]\<rparr>"
  let ?c = "\<lambda>(d :: doc) (p :: string). [[(0 :: int, 1 :: int)], [(1, 2), (2, 3)]]"
  let ?d = "\<lparr>n_tokens = 3, spans = []\<rparr>"
  have e: "span_predict_doc ?m ?c ''coref_head_clusters'' ?d = Inr [[(1, 0)], [(0, 1), (0, 1)]]"
    by (simp add: span_predict_doc_def tensor_size_def start_scores_def end_scores_def
          argmax_rows_def)
  have s: "tensor_size (?m ?d) \<noteq> 0" by (simp add: tensor_size_def)
  have w: "\<forall>row \<in> set (entries (?m ?d)). length row = n_positions (?m ?d)" by simp
  have l: "length (concat (?c ?d ''coref_head_clusters'')) \<le> length (entries (?m ?d))" by simp
  show ?thesis
    using e s w l
      span_predict_preserves_shape [of ?m ?c "''coref_head_clusters''" ?d
        "[[(1, 0)], [(0, 1), (0, 1)]]"]
    by simp
qed

text \<open>
  Claim C10. For a document whose score tensor has size zero, \<open>predict\<close> returns the empty
  partition and does not raise, whatever clusters the document carries. In a batch that
  \<open>predict\<close> returns for, every such document has the empty partition, and a batch of such
  documents only is returned as a list of empty partitions.
\<close>

theorem span_predict_empty_scores:
  "(tensor_size (model_predict d) = 0 \<longrightarrow>
      span_predict_doc model_predict doc2clusters input_prefix d = Inr []) \<and>
   (span_predict model_predict doc2clusters input_prefix docs = Inr outs \<longrightarrow>
      length outs = length docs \<and>
      (\<forall>i<length docs. tensor_size (model_predict (docs ! i)) = 0 \<longrightarrow> outs ! i = [])) \<and>
   ((\<forall>d' \<in> set docs. tensor_size (model_predict d') = 0) \<longrightarrow>
      span_predict model_predict doc2clusters input_prefix docs = Inr (replicate (length docs) []))"
proof (intro conjI impI)
  assume "tensor_size (model_predict d) = 0"
  then show "span_predict_doc model_predict doc2clusters input_prefix d = Inr []"
    by (simp add: span_predict_doc_def)
next
  assume "span_predict model_predict doc2clusters input_prefix docs = Inr outs"
  then show "length outs = length docs"
    by (induction docs arbitrary: outs) (auto split: sum.splits)
next
  assume "span_predict model_predict doc2clusters input_prefix docs = Inr outs"
  then show "\<forall>i<length docs. tensor_size (model_predict (docs ! i)) = 0 \<longrightarrow> outs ! i = []"
  proof (induction docs arbitrary: outs)
    case Nil
    then show ?case by simp
  next
    case (Cons d0 ds)
    from Cons.prems obtain o0 os where o0: "span_predict_doc model_predict doc2clusters input_prefix d0 = Inr o0"
      and os: "span_predict model_predict doc2clusters input_prefix ds = Inr os"
      and outs: "outs = o0 # os"
      by (auto split: sum.splits)
    have first: "tensor_size (model_predict d0) = 0 \<longrightarrow> o0 = []"
      using o0 by (auto simp: span_predict_doc_def)
    show ?case
    proof (intro allI impI)
      fix i assume i: "i < length (d0 # ds)" and z: "tensor_size (model_predict ((d0 # ds) ! i)) = 0"
      show "outs ! i = []"
      proof (cases i)
        case 0
        then show ?thesis using first z outs by simp
      next
        case (Suc j)
        then have "j < length ds" and "tensor_size (model_predict (ds ! j)) = 0" using i z by auto
        with Cons.IH [OF os] have "os ! j = []" by blast
        then show ?thesis using Suc outs by simp
      qed
    qed
  qed
next
  assume "\<forall>d' \<in> set docs. tensor_size (model_predict d') = 0"
  then show "span_predict model_predict doc2clusters input_prefix docs = Inr (replicate (length docs) [])"
    by (induction docs) (auto simp: span_predict_doc_def)
qed

theorem span_predict_empty_scores_witness:
  "span_predict_doc (\<lambda>d. \<lparr>n_positions = 0, entries = []\<rparr>)
       (\<lambda>d p. [[(0 :: int, 1 :: int), (1, 2)]]) ''coref_head_clusters'' \<lparr>n_tokens = 2, spans = []\<rparr>
     = Inr [] \<and>
   span_predict (\<lambda>d. \<lparr>n_positions = 0, entries = []\<rparr>)
       (\<lambda>d p. [[(0 :: int, 1 :: int), (1, 2)]]) ''coref_head_clusters''
       [\<lparr>n_tokens = 2, spans = []\<rparr>, \<lparr>n_tokens = 2, spans = []\<rparr>]
     = Inr [[], []]"
proof -
  let ?m = "\<lambda>d :: doc. \<lparr>n_positions = 0, entries = []\<rparr>"
  let ?c = "\<lambda>(d :: doc) (p :: string). [[(0 :: int, 1 :: int), (1, 2)]]"
  let ?d = "\<lparr>n_tokens = 2, spans = []\<rparr>"
  have s: "tensor_size (?m ?d) = 0" by (simp add: tensor_size_def)
  have a: "\<forall>d' \<in> set [?d, ?d]. tensor_size (?m d') = 0" by (simp add: tensor_size_def)
  have r: "span_predict ?m ?c ''coref_head_clusters'' [?d, ?d] = Inr [[], []]"
    by (simp add: span_predict_doc_def tensor_size_def)
  show ?thesis
    using s a r
      span_predict_empty_scores [of ?m ?d ?c "''coref_head_clusters''" "[?d, ?d]" "[[], []]"]
    by simp
qed

subsection \<open>\<open>update\<close> on documents without tokens\<close>

text \<open>
  Claim C7. When no example has a token in the document the component reads
  (\<open>eg.predicted\<close> for \<open>CoreferenceResolver\<close>, \<open>eg.reference\<close> for \<open>SpanPredictor\<close>), which
  includes the empty batch, \<open>update\<close> returns without raising and without any call on the
  model, and the losses it returns are the ones it was given, with the component's name
  set to 0 if it was absent.
\<close>

theorem update_no_tokens:
  "((\<forall>eg \<in> set examples. n_tokens (predicted eg) = 0) \<longrightarrow>
      coref_update np gold forward name examples drop_rate sgd losses_arg =
        Inr (setdefault (case losses_arg of None \<Rightarrow> Map.empty | Some l \<Rightarrow> l) name (Fin 0), [])) \<and>
   ((\<forall>eg \<in> set examples. n_tokens (reference eg) = 0) \<longrightarrow>
      span_update np to_categorical output_prefix span_forward name examples drop_rate sgd
          losses_arg =
        Inr (setdefault (case losses_arg of None \<Rightarrow> Map.empty | Some l \<Rightarrow> l) name (Fin 0), [])) \<and>
   (\<forall>k. setdefault losses name (Fin 0) k =
          (if k = name \<and> losses k = None then Some (Fin 0) else losses k))"
  by (auto simp: coref_update_def span_update_def Let_def setdefault_def split: option.splits)

theorem update_no_tokens_witness:
  "coref_update reference_numpy (\<lambda>d n. replicate n (replicate n False)) (\<lambda>d. ([], []))
       ''coref''
       [\<lparr>predicted = \<lparr>n_tokens = 0, spans = []\<rparr>, reference = \<lparr>n_tokens = 0, spans = []\<rparr>\<rparr>]
       (3 / 10) True None
     = Inr (setdefault Map.empty ''coref'' (Fin 0), []) \<and>
   span_update reference_numpy one_hot ''coref_clusters''
       (\<lambda>d. \<lparr>n_positions = 0, entries = []\<rparr>) ''coref''
       [\<lparr>predicted = \<lparr>n_tokens = 0, spans = []\<rparr>, reference = \<lparr>n_tokens = 0, spans = []\<rparr>\<rparr>]
       (3 / 10) True None
     = Inr (setdefault Map.empty ''coref'' (Fin 0), []) \<and>
   setdefault Map.empty ''coref'' (Fin 0) ''coref'' = Some (Fin 0)"
proof -
  let ?e = "\<lparr>predicted = \<lparr>n_tokens = 0, spans = []\<rparr>, reference = \<lparr>n_tokens = 0, spans = []\<rparr>\<rparr>"
  have p: "\<forall>eg \<in> set [?e]. n_tokens (predicted eg) = 0" by simp
  have r: "\<forall>eg \<in> set [?e]. n_tokens (reference eg) = 0" by simp
  show ?thesis
    using p r
      update_no_tokens [of "[?e]" reference_numpy "\<lambda>d n. replicate n (replicate n False)"
        "\<lambda>d. ([], [])" "''coref''" "3 / 10" True None one_hot "''coref_clusters''"
        "\<lambda>d. \<lparr>n_positions = 0, entries = []\<rparr>" Map.empty]
    by simp
qed

subsection \<open>\<open>CoreferenceResolver.score\<close>\<close>

lemma evaluator_fold:
  "foldl (\<lambda>ev ex. evaluator_update ev (c ex)) ev0 examples =
     \<lparr>p_num = p_num ev0 + (\<Sum>ex\<leftarrow>examples. fst (c ex)),
      p_den = p_den ev0 + (\<Sum>ex\<leftarrow>examples. fst (snd (c ex))),
      r_num = r_num ev0 + (\<Sum>ex\<leftarrow>examples. fst (snd (snd (c ex)))),
      r_den = r_den ev0 + (\<Sum>ex\<leftarrow>examples. snd (snd (snd (c ex))))\<rparr>"
proof (induction examples arbitrary: ev0)
  case Nil
  then show ?case by simp
next
  case (Cons ex examples)
  have "foldl (\<lambda>ev ex. evaluator_update ev (c ex)) ev0 (ex # examples) =
        foldl (\<lambda>ev ex. evaluator_update ev (c ex)) (evaluator_update ev0 (c ex)) examples"
    by simp
  also note Cons.IH
  finally show ?case
    by (simp add: evaluator_update_def case_prod_beta add.assoc)
qed

lemma run_evaluator_totals: "run_evaluator counts m examples = corpus_totals counts m examples"
  by (simp add: run_evaluator_def corpus_totals_def evaluator_fold Evaluator_def)

text \<open>
  Claim C3. Each of the fields f, p and r that \<open>score\<close> returns is the mean, over B-cubed,
  MUC and CEAF-entity, of that metric's value on the totals summed over all examples.
\<close>

theorem coref_score_macro_of_micro:
  "coref_score counts examples =
     \<lparr>coref_f = (get_f1 (corpus_totals counts B_cubed examples)
                 + get_f1 (corpus_totals counts Muc examples)
                 + get_f1 (corpus_totals counts Ceafe examples)) / 3,
      coref_p = (get_precision (corpus_totals counts B_cubed examples)
                 + get_precision (corpus_totals counts Muc examples)
                 + get_precision (corpus_totals counts Ceafe examples)) / 3,
      coref_r = (get_recall (corpus_totals counts B_cubed examples)
                 + get_recall (corpus_totals counts Muc examples)
                 + get_recall (corpus_totals counts Ceafe examples)) / 3\<rparr>"
  by (simp add: coref_score_def Let_def mean_def run_evaluator_totals)

end
